theory Spec2Isabelle
  imports Main
begin

section \<open>Result algebra and parse status (helpers/parseUtil.ts)\<close>

text \<open>
  A JavaScript value of static type \<open>any\<close> is either \<open>undefined\<close> or a defined value.
  The merge functions never look inside a defined value, so its type is a parameter.
  Reading a property that an object does not have yields \<open>undefined\<close>, hence an absent
  field and a field holding \<open>undefined\<close> are both \<open>Undefined\<close>.
\<close>

datatype 'a any = Undefined | Val 'a

text \<open>The three strings \<open>"valid"\<close>, \<open>"dirty"\<close> and \<open>"aborted"\<close>.\<close>

datatype StatusValue = Valid | Dirty | Aborted

text \<open>
  \<open>SyncParseReturnType\<close>: an object with a \<open>status\<close> and, unless it is \<open>INVALID\<close>,
  a \<open>value\<close>. It is a record and not a three-constructor datatype, because
  \<open>mergeArray\<close> and \<open>mergeObjectSync\<close> build \<open>{ status: status.value, value: ... }\<close>,
  which carries a value even when \<open>status.value\<close> is \<open>"aborted"\<close>.
\<close>

record 'a SyncParseReturnType =
  status :: StatusValue
  "value" :: "'a any"

definition INVALID :: "'a SyncParseReturnType" where
  "INVALID = \<lparr>status = Aborted, value = Undefined\<rparr>"

definition DIRTY :: "'a any \<Rightarrow> 'a SyncParseReturnType" where
  "DIRTY v = \<lparr>status = Dirty, value = v\<rparr>"

definition OK :: "'a any \<Rightarrow> 'a SyncParseReturnType" where
  "OK v = \<lparr>status = Valid, value = v\<rparr>"

text \<open>
  A promise is described by how it settles: it is fulfilled with a value, rejected with a
  reason, or it never settles. \<open>ParseReturnType\<close> is a synchronous result or a promise
  of one.
\<close>

datatype ('e, 'a) Promise = Fulfilled 'a | Rejected 'e | Pending

datatype ('e, 'a) ParseReturnType =
  Sync "'a SyncParseReturnType"
| Async "('e, 'a SyncParseReturnType) Promise"

text \<open>
  The predicates read \<open>(x as any).status\<close>. A promise has no \<open>status\<close> property, so
  the read gives \<open>undefined\<close>, which is equal to none of the three strings.
  \<open>isAsync\<close> is \<open>x instanceof Promise\<close>, in a runtime that has \<open>Promise\<close>.
\<close>

fun isAborted :: "('e, 'a) ParseReturnType \<Rightarrow> bool" where
  "isAborted (Sync x) = (status x = Aborted)"
| "isAborted (Async p) = False"

fun isDirty :: "('e, 'a) ParseReturnType \<Rightarrow> bool" where
  "isDirty (Sync x) = (status x = Dirty)"
| "isDirty (Async p) = False"

fun isValid :: "('e, 'a) ParseReturnType \<Rightarrow> bool" where
  "isValid (Sync x) = (status x = Valid)"
| "isValid (Async p) = False"

fun isAsync :: "('e, 'a) ParseReturnType \<Rightarrow> bool" where
  "isAsync (Sync x) = False"
| "isAsync (Async p) = True"

subsection \<open>ParseStatus\<close>

text \<open>
  A \<open>ParseStatus\<close> object has the single mutable field \<open>value\<close>, initially
  \<open>"valid"\<close>. The object is modelled by the content of that field; a method that
  mutates it returns the new content.
\<close>

definition new_ParseStatus :: StatusValue where
  "new_ParseStatus = Valid"

definition dirty :: "StatusValue \<Rightarrow> StatusValue" where
  "dirty this = (if this = Valid then Dirty else this)"

definition abort :: "StatusValue \<Rightarrow> StatusValue" where
  "abort this = (if this \<noteq> Aborted then Aborted else this)"

text \<open>The total order \<open>valid < dirty < aborted\<close> of the specification, as a rank.\<close>

fun rank :: "StatusValue \<Rightarrow> nat" where
  "rank Valid = 0"
| "rank Dirty = 1"
| "rank Aborted = 2"

subsection \<open>mergeArray\<close>

text \<open>
  The \<open>for\<close> loop of \<open>mergeArray\<close>, with the status and \<open>arrayValue\<close> as loop state.
  The function returns the status after the call together with the returned result.
  \<open>return INVALID\<close> leaves the loop with the status mutated so far.
\<close>

fun mergeArray_loop ::
  "StatusValue \<Rightarrow> 'a any list \<Rightarrow> 'a SyncParseReturnType list
    \<Rightarrow> StatusValue \<times> ('a any list) SyncParseReturnType" where
  "mergeArray_loop st arrayValue [] = (st, \<lparr>status = st, value = Val arrayValue\<rparr>)"
| "mergeArray_loop st arrayValue (s # results) =
     (if status s = Aborted then (st, INVALID)
      else mergeArray_loop (if status s = Dirty then dirty st else st)
             (arrayValue @ [value s]) results)"

definition mergeArray ::
  "StatusValue \<Rightarrow> 'a SyncParseReturnType list
    \<Rightarrow> StatusValue \<times> ('a any list) SyncParseReturnType" where
  "mergeArray st results = mergeArray_loop st [] results"

subsection \<open>mergeObjectSync\<close>

text \<open>
  A key's value has the static type \<open>any\<close>. The code does two things with it: it
  compares it with the string \<open>"__proto__"\<close> by \<open>!==\<close>, and it uses it as the property
  key of a write. The comparison is decided by identity of primitive strings, so it
  is false for the primitive string \<open>"__proto__"\<close> and true for every other value. The
  write converts the value to a property key: a string is its own name, \<open>undefined\<close>,
  \<open>null\<close> and a boolean give their names, a symbol is a key by itself, and any other
  value (a number, an array, an object) gives the key that its conversion to a
  primitive and then to a string yields. Such a value is modelled by that key: the
  array \<open>["__proto__"]\<close> and \<open>new String("__proto__")\<close> are \<open>JOther (Name "__proto__")\<close>,
  the number \<open>1\<close> is \<open>JOther (Name "1")\<close>. The conversion is taken to return, without
  an effect of its own.
\<close>

datatype PropertyKey = Name string | Symbol nat

datatype jsvalue =
  JString string
| JNull
| JBoolean bool
| JSymbol nat
| JOther PropertyKey

fun toPropertyKey :: "jsvalue any \<Rightarrow> PropertyKey" where
  "toPropertyKey Undefined = Name ''undefined''"
| "toPropertyKey (Val (JString s)) = Name s"
| "toPropertyKey (Val JNull) = Name ''null''"
| "toPropertyKey (Val (JBoolean b)) = Name (if b then ''true'' else ''false'')"
| "toPropertyKey (Val (JSymbol n)) = Symbol n"
| "toPropertyKey (Val (JOther k)) = k"

text \<open>
  A pair of \<open>mergeObjectSync\<close>. \<open>alwaysSet\<close> is optional; an absent flag is
  \<open>Undefined\<close>, which is falsy.
\<close>

record 'a ObjectPair =
  key :: "jsvalue SyncParseReturnType"
  pair_value :: "'a SyncParseReturnType"
  alwaysSet :: "bool any"

fun truthy :: "bool any \<Rightarrow> bool" where
  "truthy Undefined = False"
| "truthy (Val b) = b"

text \<open>
  The test of the \<open>if\<close> that guards \<open>finalObject[key.value] = value.value\<close>.
\<close>

definition contributes :: "'a ObjectPair \<Rightarrow> bool" where
  "contributes pair =
     (value (key pair) \<noteq> Val (JString ''__proto__'') \<and>
      (value (pair_value pair) \<noteq> Undefined \<or> truthy (alwaysSet pair)))"

text \<open>
  \<open>finalObject\<close> is created by \<open>{}\<close>: it has no property of its own, and it inherits
  from \<open>Object.prototype\<close>, which has an accessor property named \<open>__proto__\<close>. A write
  to that name therefore calls the inherited setter and adds no own property; the
  setter replaces the prototype of \<open>finalObject\<close> when the value written is an object
  or \<open>null\<close>, and does nothing otherwise. A write to any other key creates or
  overwrites an own property, which may hold \<open>undefined\<close>.

  The object is modelled by its own properties and by the values handed to the setter,
  in order. The write is the one of the language against \<open>Object.prototype\<close> as the
  language defines it. Once the setter has installed another prototype, what a later
  write does is decided by that prototype; the model goes on as if the prototype were
  still \<open>Object.prototype\<close>.
\<close>

record 'a JSObject =
  properties :: "PropertyKey \<rightharpoonup> 'a any"
  proto_writes :: "'a any list"

definition empty_object :: "'a JSObject" where
  "empty_object = \<lparr>properties = Map.empty, proto_writes = []\<rparr>"

definition property_write :: "'a JSObject \<Rightarrow> jsvalue any \<Rightarrow> 'a any \<Rightarrow> 'a JSObject" where
  "property_write obj k v =
     (if toPropertyKey k = Name ''__proto__''
      then obj\<lparr>proto_writes := proto_writes obj @ [v]\<rparr>
      else obj\<lparr>properties := (properties obj)(toPropertyKey k \<mapsto> v)\<rparr>)"

fun mergeObjectSync_loop ::
  "StatusValue \<Rightarrow> 'a JSObject \<Rightarrow> 'a ObjectPair list
    \<Rightarrow> StatusValue \<times> ('a JSObject) SyncParseReturnType" where
  "mergeObjectSync_loop st finalObject [] = (st, \<lparr>status = st, value = Val finalObject\<rparr>)"
| "mergeObjectSync_loop st finalObject (pair # pairs) =
     (if status (key pair) = Aborted then (st, INVALID)
      else if status (pair_value pair) = Aborted then (st, INVALID)
      else
        let st1 = (if status (key pair) = Dirty then dirty st else st);
            st2 = (if status (pair_value pair) = Dirty then dirty st1 else st1)
        in mergeObjectSync_loop st2
             (if contributes pair
              then property_write finalObject (value (key pair)) (value (pair_value pair))
              else finalObject)
             pairs)"

definition mergeObjectSync ::
  "StatusValue \<Rightarrow> 'a ObjectPair list
    \<Rightarrow> StatusValue \<times> ('a JSObject) SyncParseReturnType" where
  "mergeObjectSync st pairs = mergeObjectSync_loop st empty_object pairs"

subsection \<open>mergeObjectAsync\<close>

text \<open>
  A pair of \<open>mergeObjectAsync\<close>: the parameter type has the fields \<open>key\<close> and
  \<open>value\<close> only, each a synchronous result or a promise.
\<close>

record ('e, 'a) AsyncObjectPair =
  async_key :: "('e, jsvalue) ParseReturnType"
  async_value :: "('e, 'a) ParseReturnType"

text \<open>
  \<open>await x\<close>: a value that is not a promise is handed back as it is; a promise gives
  its outcome. A rejection is thrown, and a promise that never settles suspends the
  caller for ever.
\<close>

fun await :: "('e, 'a) ParseReturnType \<Rightarrow> ('e, 'a SyncParseReturnType) Promise" where
  "await (Sync x) = Fulfilled x"
| "await (Async p) = p"

text \<open>The \<open>await\<close> expressions evaluated by a call, in the order of evaluation.\<close>

datatype ('e, 'a) Awaited =
  AwaitedKey "('e, jsvalue) ParseReturnType"
| AwaitedValue "('e, 'a) ParseReturnType"

text \<open>
  The loop that fills \<open>syncPairs\<close>. The pushed object is \<open>{ key, value }\<close>: it has no
  \<open>alwaysSet\<close> property.
\<close>

fun mergeObjectAsync_loop ::
  "'a ObjectPair list \<Rightarrow> ('e, 'a) Awaited list \<Rightarrow> ('e, 'a) AsyncObjectPair list
    \<Rightarrow> ('e, 'a) Awaited list \<times> ('e, 'a ObjectPair list) Promise" where
  "mergeObjectAsync_loop syncPairs awaits [] = (awaits, Fulfilled syncPairs)"
| "mergeObjectAsync_loop syncPairs awaits (pair # pairs) =
     (case await (async_key pair) of
        Rejected e \<Rightarrow> (awaits @ [AwaitedKey (async_key pair)], Rejected e)
      | Pending \<Rightarrow> (awaits @ [AwaitedKey (async_key pair)], Pending)
      | Fulfilled k \<Rightarrow>
          (case await (async_value pair) of
             Rejected e \<Rightarrow>
               (awaits @ [AwaitedKey (async_key pair), AwaitedValue (async_value pair)],
                Rejected e)
           | Pending \<Rightarrow>
               (awaits @ [AwaitedKey (async_key pair), AwaitedValue (async_value pair)],
                Pending)
           | Fulfilled v \<Rightarrow>
               mergeObjectAsync_loop
                 (syncPairs @ [\<lparr>key = k, pair_value = v, alwaysSet = Undefined\<rparr>])
                 (awaits @ [AwaitedKey (async_key pair), AwaitedValue (async_value pair)])
                 pairs))"

text \<open>
  The result of a call: the awaits it performed, the status after the call, and the
  outcome of the returned promise. The status is touched by the final call of
  \<open>mergeObjectSync\<close> only. The model runs one call on its own: no other code changes
  the status object while the call is suspended.
\<close>

definition mergeObjectAsync ::
  "StatusValue \<Rightarrow> ('e, 'a) AsyncObjectPair list
    \<Rightarrow> ('e, 'a) Awaited list \<times> StatusValue
        \<times> ('e, ('a JSObject) SyncParseReturnType) Promise" where
  "mergeObjectAsync st pairs =
     (case mergeObjectAsync_loop [] [] pairs of
        (awaits, Fulfilled syncPairs) \<Rightarrow>
          (awaits, fst (mergeObjectSync st syncPairs),
           Fulfilled (snd (mergeObjectSync st syncPairs)))
      | (awaits, Rejected e) \<Rightarrow> (awaits, st, Rejected e)
      | (awaits, Pending) \<Rightarrow> (awaits, st, Pending))"

section \<open>Error map registry (errors.ts)\<close>

text \<open>
  An error map is a function object. \<open>addIssueToContext\<close> compares two of them with
  \<open>===\<close>, which is identity of objects and not equality of behaviour, so an error map
  is a reference into a table of functions. The function takes the issue (without
  message) and \<open>{ data, defaultError }\<close> and returns \<open>{ message }\<close>; the model returns
  the message.
\<close>

datatype ParsePathComponent = PathString string | PathNumber int

text \<open>
  \<open>IssueData\<close>, \<open>ZodIssueOptionalMessage\<close> and \<open>ZodIssue\<close> (declared in ZodError.ts)
  have the same fields and differ in which of \<open>path\<close> and \<open>message\<close> may be absent.
  One record serves for all three, as the object spreads \<open>{ ...issueData, path, message }\<close>
  of the source do. \<open>detail\<close> stands for the issue code and the fields that belong to it.
\<close>

record 'c IssueData =
  detail :: 'c
  path :: "ParsePathComponent list any"
  message :: "string any"

record 'd ErrorMapCtx =
  data :: 'd
  defaultError :: string

type_synonym ref = nat

type_synonym ('c, 'd) ZodErrorMap = "'c IssueData \<Rightarrow> 'd ErrorMapCtx \<Rightarrow> string"

text \<open>
  The module state of errors.ts: the variable \<open>overrideErrorMap\<close>. The imported
  \<open>defaultErrorMap\<close> (locales/en.ts) and the table of function objects are fixed.
\<close>

record ('c, 'd) Env =
  table :: "ref \<Rightarrow> ('c, 'd) ZodErrorMap"
  defaultErrorMap :: ref
  overrideErrorMap :: ref

definition initial_Env :: "(ref \<Rightarrow> ('c, 'd) ZodErrorMap) \<Rightarrow> ref \<Rightarrow> ('c, 'd) Env" where
  "initial_Env fs d = \<lparr>table = fs, defaultErrorMap = d, overrideErrorMap = d\<rparr>"

definition setErrorMap :: "ref \<Rightarrow> ('c, 'd) Env \<Rightarrow> ('c, 'd) Env" where
  "setErrorMap m env = env\<lparr>overrideErrorMap := m\<rparr>"

definition getErrorMap :: "('c, 'd) Env \<Rightarrow> ref" where
  "getErrorMap env = overrideErrorMap env"

section \<open>Issue builder (helpers/parseUtil.ts)\<close>

text \<open>\<open>.filter((m) => !!m)\<close>: a function object is truthy, \<open>undefined\<close> is not.\<close>

fun present :: "'a any list \<Rightarrow> 'a list" where
  "present [] = []"
| "present (Undefined # ms) = present ms"
| "present (Val m # ms) = m # present ms"

text \<open>One invocation of an error map: the function called and its two arguments.\<close>

record ('c, 'd) Call =
  callee :: ref
  call_issue :: "'c IssueData"
  call_ctx :: "'d ErrorMapCtx"

definition returned :: "(ref \<Rightarrow> ('c, 'd) ZodErrorMap) \<Rightarrow> ('c, 'd) Call \<Rightarrow> string" where
  "returned fs c = fs (callee c) (call_issue c) (call_ctx c)"

text \<open>
  The loop \<open>for (const map of maps)\<close>, with \<open>errorMessage\<close> as loop state and the
  invocations made so far.
\<close>

fun makeIssue_loop ::
  "(ref \<Rightarrow> ('c, 'd) ZodErrorMap) \<Rightarrow> 'c IssueData \<Rightarrow> 'd \<Rightarrow> ref list \<Rightarrow> string
    \<Rightarrow> ('c, 'd) Call list \<Rightarrow> string \<times> ('c, 'd) Call list" where
  "makeIssue_loop fs fullIssue d [] errorMessage calls = (errorMessage, calls)"
| "makeIssue_loop fs fullIssue d (m # maps) errorMessage calls =
     makeIssue_loop fs fullIssue d maps
       (fs m fullIssue \<lparr>data = d, defaultError = errorMessage\<rparr>)
       (calls @ [\<lparr>callee = m, call_issue = fullIssue,
                  call_ctx = \<lparr>data = d, defaultError = errorMessage\<rparr>\<rparr>])"

text \<open>\<open>issueData.path || []\<close>: an array, also an empty one, is truthy.\<close>

fun path_or_empty :: "ParsePathComponent list any \<Rightarrow> ParsePathComponent list" where
  "path_or_empty Undefined = []"
| "path_or_empty (Val p) = p"

text \<open>
  \<open>makeIssue\<close> returns the issue; the model returns with it the invocations of error
  maps that the call made, in order.
\<close>

definition makeIssue ::
  "(ref \<Rightarrow> ('c, 'd) ZodErrorMap) \<Rightarrow> 'd \<Rightarrow> ParsePathComponent list \<Rightarrow> ref any list
    \<Rightarrow> 'c IssueData \<Rightarrow> 'c IssueData \<times> ('c, 'd) Call list" where
  "makeIssue fs d pth errorMaps issueData =
     (let fullPath = pth @ path_or_empty (path issueData);
          fullIssue = issueData\<lparr>path := Val fullPath\<rparr>
      in case message issueData of
           Val msg \<Rightarrow> (issueData\<lparr>path := Val fullPath, message := Val msg\<rparr>, [])
         | Undefined \<Rightarrow>
             (let maps = rev (present errorMaps);
                  r = makeIssue_loop fs fullIssue d maps [] []
              in (issueData\<lparr>path := Val fullPath, message := Val (fst r)\<rparr>, snd r)))"

subsection \<open>addIssueToContext\<close>

text \<open>
  The fields of \<open>ParseContext\<close> that \<open>addIssueToContext\<close> reads or writes. The array
  \<open>common.issues\<close> is mutated in place; the model returns the context with the array
  after the push.
\<close>

record 'c Common =
  issues :: "'c IssueData list"
  contextualErrorMap :: "ref any"
  async :: bool

record ('c, 'd) ParseContext =
  common :: "'c Common"
  ctx_path :: "ParsePathComponent list"
  schemaErrorMap :: "ref any"
  ctx_data :: 'd

definition errorMaps_of :: "('c, 'd) Env \<Rightarrow> ('c, 'd) ParseContext \<Rightarrow> ref list" where
  "errorMaps_of env ctx =
     (let overrideMap = getErrorMap env
      in present
           [contextualErrorMap (common ctx),
            schemaErrorMap ctx,
            Val overrideMap,
            if overrideMap = defaultErrorMap env then Undefined
            else Val (defaultErrorMap env)])"

definition addIssueToContext ::
  "('c, 'd) Env \<Rightarrow> ('c, 'd) ParseContext \<Rightarrow> 'c IssueData
    \<Rightarrow> ('c, 'd) ParseContext \<times> ('c, 'd) Call list" where
  "addIssueToContext env ctx issueData =
     (let r = makeIssue (table env) (ctx_data ctx) (ctx_path ctx)
                (map Val (errorMaps_of env ctx)) issueData
      in (ctx\<lparr>common := (common ctx)\<lparr>issues := issues (common ctx) @ [fst r]\<rparr>\<rparr>, snd r))"

section \<open>Notions used to state the properties\<close>

text \<open>
  The operations that touch a \<open>ParseStatus\<close>, and the status after one of them.
\<close>

datatype ('e, 'a) StatusOp =
  CallDirty
| CallAbort
| CallMergeArray "'a SyncParseReturnType list"
| CallMergeObjectSync "'a ObjectPair list"
| CallMergeObjectAsync "('e, 'a) AsyncObjectPair list"

fun status_after :: "StatusValue \<Rightarrow> ('e, 'a) StatusOp \<Rightarrow> StatusValue" where
  "status_after st CallDirty = dirty st"
| "status_after st CallAbort = abort st"
| "status_after st (CallMergeArray results) = fst (mergeArray st results)"
| "status_after st (CallMergeObjectSync pairs) = fst (mergeObjectSync st pairs)"
| "status_after st (CallMergeObjectAsync pairs) = fst (snd (mergeObjectAsync st pairs))"





text \<open>
  A pair of \<open>mergeObjectAsync\<close> resolves to a synchronous pair when its key and its
  value are, or are fulfilled with, the synchronous pair's key and value. The
  synchronous pair has no \<open>alwaysSet\<close>, as the asynchronous one has none.
\<close>

definition resolves_to :: "('e, 'a) AsyncObjectPair \<Rightarrow> 'a ObjectPair \<Rightarrow> bool" where
  "resolves_to p sp =
     (await (async_key p) = Fulfilled (key sp) \<and>
      await (async_value p) = Fulfilled (pair_value sp) \<and>
      alwaysSet sp = Undefined)"

definition awaits_of :: "('e, 'a) AsyncObjectPair \<Rightarrow> ('e, 'a) Awaited list" where
  "awaits_of p = [AwaitedKey (async_key p), AwaitedValue (async_value p)]"

text \<open>
  A sequence of invocations is chained from \<open>dflt\<close> when the first one receives
  \<open>dflt\<close> as \<open>defaultError\<close> and every later one receives the message that the
  invocation before it returned.
\<close>

fun chained :: "(ref \<Rightarrow> ('c, 'd) ZodErrorMap) \<Rightarrow> string \<Rightarrow> ('c, 'd) Call list \<Rightarrow> bool" where
  "chained fs dflt [] = True"
| "chained fs dflt (c # cs) =
     (defaultError (call_ctx c) = dflt \<and> chained fs (returned fs c) cs)"

text \<open>The invocations that the loop of \<open>makeIssue\<close> adds, as a list.\<close>

fun calls_from ::
  "(ref \<Rightarrow> ('c, 'd) ZodErrorMap) \<Rightarrow> 'c IssueData \<Rightarrow> 'd \<Rightarrow> ref list \<Rightarrow> string
    \<Rightarrow> ('c, 'd) Call list" where
  "calls_from fs fullIssue d [] msg = []"
| "calls_from fs fullIssue d (m # maps) msg =
     \<lparr>callee = m, call_issue = fullIssue, call_ctx = \<lparr>data = d, defaultError = msg\<rparr>\<rparr>
       # calls_from fs fullIssue d maps (fs m fullIssue \<lparr>data = d, defaultError = msg\<rparr>)"

text \<open>
  Three error maps for the examples: function 0 answers \<open>"override"\<close> whatever it is
  given, function 1 wraps the default it receives, function 2 answers \<open>"C"\<close>.
\<close>

definition example_table :: "ref \<Rightarrow> (unit, unit) ZodErrorMap" where
  "example_table r issue ctx =
     (if r = 0 then ''override''
      else if r = 1 then ''B('' @ defaultError ctx @ '')''
      else ''C'')"

definition example_issueData :: "unit IssueData" where
  "example_issueData = \<lparr>detail = (), path = Val [PathString ''b''], message = Undefined\<rparr>"

definition example_ctx :: "(unit, unit) ParseContext" where
  "example_ctx =
     \<lparr>common = \<lparr>issues = [], contextualErrorMap = Val 1, async = False\<rparr>,
      ctx_path = [PathString ''a'', PathNumber 0],
      schemaErrorMap = Undefined,
      ctx_data = ()\<rparr>"

section \<open>Auxiliary facts\<close>

lemma dirty_dirty: "dirty (dirty st) = dirty st"
  by (simp add: dirty_def)

lemma rank_dirty: "rank st \<le> rank (dirty st)"
  by (cases st) (simp_all add: dirty_def)

lemma rank_abort: "rank st \<le> rank (abort st)"
  by (cases st) (simp_all add: abort_def)

text \<open>
  A prefix without an aborted element runs through the loop: it can only mark the
  status dirty, and it appends its values.
\<close>

lemma mergeArray_loop_prefix:
  "\<forall>s\<in>set pre. status s \<noteq> Aborted \<Longrightarrow>
   mergeArray_loop st arr (pre @ rest) =
   mergeArray_loop (if \<exists>s\<in>set pre. status s = Dirty then dirty st else st)
     (arr @ map value pre) rest"
  by (induction pre arbitrary: st arr) (auto simp: dirty_dirty)

lemma fst_mergeArray_loop:
  "fst (mergeArray_loop st arr rs) = st \<or> fst (mergeArray_loop st arr rs) = dirty st"
proof (induction rs arbitrary: st arr)
  case Nil
  show ?case by simp
next
  case (Cons s rs)
  show ?case
    using Cons.IH [of st "arr @ [value s]"] Cons.IH [of "dirty st" "arr @ [value s]"]
    by (auto simp: dirty_dirty)
qed







lemma fst_mergeObjectSync_loop:
  "fst (mergeObjectSync_loop st obj ps) = st \<or>
   fst (mergeObjectSync_loop st obj ps) = dirty st"
proof (induction ps arbitrary: st obj)
  case Nil
  show ?case by simp
next
  case (Cons p ps)
  show ?case
    using Cons.IH [of st] Cons.IH [of "dirty st"]
    by (auto simp: dirty_dirty Let_def)
qed

lemma status_after_mergeObjectAsync:
  "fst (snd (mergeObjectAsync st pairs)) = st \<or>
   fst (snd (mergeObjectAsync st pairs)) = dirty st"
proof (cases "mergeObjectAsync_loop [] [] pairs")
  case (Pair awaits outcome)
  then show ?thesis
    using fst_mergeObjectSync_loop [of st empty_object]
    by (cases outcome) (simp_all add: mergeObjectAsync_def mergeObjectSync_def)
qed

lemma rank_status_after: "rank st \<le> rank (status_after st op)"
proof (cases op)
  case CallDirty
  then show ?thesis by (simp add: rank_dirty)
next
  case CallAbort
  then show ?thesis by (simp add: rank_abort)
next
  case (CallMergeArray results)
  then show ?thesis
    using fst_mergeArray_loop [of st "[]" results] rank_dirty [of st]
    by (auto simp: mergeArray_def)
next
  case (CallMergeObjectSync pairs)
  then show ?thesis
    using fst_mergeObjectSync_loop [of st empty_object pairs] rank_dirty [of st]
    by (auto simp: mergeObjectSync_def)
next
  case (CallMergeObjectAsync pairs)
  then show ?thesis
    using status_after_mergeObjectAsync [of st pairs] rank_dirty [of st]
    by auto
qed

lemma rank_foldl_status_after: "rank st \<le> rank (foldl status_after st ops)"
proof (induction ops arbitrary: st)
  case Nil
  show ?case by simp
next
  case (Cons op ops)
  have "rank st \<le> rank (status_after st op)" by (rule rank_status_after)
  also have "\<dots> \<le> rank (foldl status_after (status_after st op) ops)" by (rule Cons.IH)
  finally show ?case by simp
qed


lemma mergeObjectAsync_loop_resolved:
  "list_all2 resolves_to pairs sps \<Longrightarrow>
   mergeObjectAsync_loop acc awaits pairs =
     (awaits @ concat (map awaits_of pairs), Fulfilled (acc @ sps))"
proof (induction pairs sps arbitrary: acc awaits rule: list_all2_induct)
  case Nil
  show ?case by simp
next
  case (Cons p ps sp sps)
  have sp: "\<lparr>key = key sp, pair_value = pair_value sp, alwaysSet = Undefined\<rparr> = sp"
    using Cons.hyps(1) by (cases sp) (simp add: resolves_to_def)
  have "mergeObjectAsync_loop acc awaits (p # ps) =
        mergeObjectAsync_loop (acc @ [sp]) (awaits @ awaits_of p) ps"
    using Cons.hyps(1) by (simp add: resolves_to_def awaits_of_def sp)
  then show ?case by (simp add: Cons.IH)
qed

lemma resolved_pairs_exist:
  "\<forall>p\<in>set pairs. (\<exists>k. await (async_key p) = Fulfilled k) \<and>
                  (\<exists>v. await (async_value p) = Fulfilled v) \<Longrightarrow>
   \<exists>sps. list_all2 resolves_to pairs sps"
proof (induction pairs)
  case Nil
  show ?case by simp
next
  case (Cons p ps)
  then obtain sps where sps: "list_all2 resolves_to ps sps" by auto
  from Cons.prems obtain k v where
    "await (async_key p) = Fulfilled k" "await (async_value p) = Fulfilled v" by auto
  then have "resolves_to p \<lparr>key = k, pair_value = v, alwaysSet = Undefined\<rparr>"
    by (simp add: resolves_to_def)
  with sps have "list_all2 resolves_to (p # ps)
      (\<lparr>key = k, pair_value = v, alwaysSet = Undefined\<rparr> # sps)" by simp
  then show ?case by blast
qed

lemma calls_from_Nil: "(calls_from fs fullIssue d maps msg = []) = (maps = [])"
  by (cases maps) simp_all

lemma makeIssue_loop_calls:
  "snd (makeIssue_loop fs fullIssue d maps msg calls) =
     calls @ calls_from fs fullIssue d maps msg"
  by (induction maps arbitrary: msg calls) simp_all

lemma makeIssue_loop_message:
  "fst (makeIssue_loop fs fullIssue d maps msg calls) =
     (if maps = [] then msg else returned fs (last (calls_from fs fullIssue d maps msg)))"
  by (induction maps arbitrary: msg calls) (simp_all add: returned_def calls_from_Nil)

lemma callee_calls_from: "map callee (calls_from fs fullIssue d maps msg) = maps"
  by (induction maps arbitrary: msg) simp_all

lemma args_calls_from:
  "c \<in> set (calls_from fs fullIssue d maps msg) \<Longrightarrow>
   call_issue c = fullIssue \<and> data (call_ctx c) = d"
  by (induction maps arbitrary: msg) auto

lemma chained_calls_from: "chained fs msg (calls_from fs fullIssue d maps msg)"
  by (induction maps arbitrary: msg) (simp_all add: returned_def)

lemma present_append: "present (xs @ ys) = present xs @ present ys"
  by (induction xs rule: present.induct) simp_all

lemma present_map_Val: "present (map Val ms) = ms"
  by (induction ms) simp_all

section \<open>Parse status\<close>

text \<open>
  Claim C1. The status only moves upwards in the order valid < dirty < aborted. Starting
  from any status and applying any sequence of calls of \<open>dirty()\<close>, \<open>abort()\<close>,
  \<open>mergeArray\<close>, \<open>mergeObjectSync\<close> and \<open>mergeObjectAsync\<close> (with any arguments), the
  status reached is never below the one started from. Hence an aborted status stays
  aborted, and a dirty status is dirty or aborted afterwards.
\<close>

theorem ParseStatus_monotone:
  "rank st \<le> rank (foldl status_after st ops) \<and>
   (st = Aborted \<longrightarrow> foldl status_after st ops = Aborted) \<and>
   (st = Dirty \<longrightarrow> foldl status_after st ops = Dirty \<or> foldl status_after st ops = Aborted)"
  using rank_foldl_status_after [of st ops]
  by (cases "foldl status_after st ops") auto

theorem ParseStatus_monotone_witness:
  "rank Dirty \<le> rank (foldl status_after Dirty
      [CallMergeArray [DIRTY (Val (1::nat))], CallAbort, CallDirty :: (unit, nat) StatusOp]) \<and>
   foldl status_after Aborted
      [CallDirty, CallMergeObjectSync [], CallAbort :: (unit, nat) StatusOp] = Aborted \<and>
   foldl status_after Dirty
      [CallMergeArray [DIRTY (Val (1::nat))], CallAbort, CallDirty :: (unit, nat) StatusOp]
     = Aborted"
  using ParseStatus_monotone [of Dirty
      "[CallMergeArray [DIRTY (Val (1::nat))], CallAbort, CallDirty :: (unit, nat) StatusOp]"]
    ParseStatus_monotone [of Aborted
      "[CallDirty, CallMergeObjectSync [], CallAbort :: (unit, nat) StatusOp]"]
  by (simp add: mergeArray_def DIRTY_def dirty_def abort_def)

section \<open>mergeArray\<close>

text \<open>
  Claim C2. Whatever the status passed in, if some element result has status aborted,
  \<open>mergeArray\<close> returns \<open>INVALID\<close>; the other elements do not matter.
\<close>

theorem mergeArray_aborted_element:
  assumes "\<exists>s\<in>set results. status s = Aborted"
  shows "snd (mergeArray st results) = INVALID"
proof -
  from assms obtain pre a post where
    split: "results = pre @ a # post" and a: "status a = Aborted"
    and pre: "\<forall>s\<in>set pre. status s \<noteq> Aborted"
    using split_list_first_prop [of results "\<lambda>s. status s = Aborted"] by blast
  show ?thesis
    unfolding mergeArray_def split
    by (simp add: mergeArray_loop_prefix [OF pre] a)
qed

theorem mergeArray_aborted_element_witness:
  "snd (mergeArray Valid [OK (Val (1::nat)), DIRTY (Val 2), INVALID, OK (Val 4)]) = INVALID"
proof -
  have h: "\<exists>s\<in>set [OK (Val (1::nat)), DIRTY (Val 2), INVALID, OK (Val 4)]. status s = Aborted"
    by (simp add: INVALID_def)
  show ?thesis by (rule mergeArray_aborted_element [OF h])
qed

text \<open>
  Claim C3, as the specification states it, fails when the status passed in is already
  aborted: \<open>status.dirty()\<close> then changes nothing, and the result is built with the
  status aborted. The elements below contain a dirty one and no aborted one.
\<close>

theorem mergeArray_dirty_counterexample:
  "status (DIRTY (Val (1::nat))) = Dirty \<and>
   status (snd (mergeArray Aborted [DIRTY (Val (1::nat))])) \<noteq> Dirty \<and>
   mergeArray Aborted [DIRTY (Val (1::nat))] =
     (Aborted, \<lparr>status = Aborted, value = Val [Val 1]\<rparr>)"
  by (simp add: mergeArray_def DIRTY_def dirty_def)

text \<open>
  Claim C3, amended. For elements with no aborted one and at least one dirty one,
  \<open>mergeArray\<close> returns a result whose value is the sequence of all element values in
  the order of the input, dirty ones included. Its status is dirty when the status
  passed in is valid or dirty, and aborted when the status passed in is aborted.
\<close>

theorem mergeArray_dirty_elements:
  assumes "\<forall>s\<in>set results. status s \<noteq> Aborted"
    and "\<exists>s\<in>set results. status s = Dirty"
  shows "snd (mergeArray st results) =
           \<lparr>status = (if st = Aborted then Aborted else Dirty),
            value = Val (map value results)\<rparr>"
  using mergeArray_loop_prefix [OF assms(1), of st "[]" "[]"] assms(2)
  by (cases st) (simp_all add: mergeArray_def dirty_def)

theorem mergeArray_dirty_elements_witness:
  "snd (mergeArray Valid [OK (Val (1::nat)), DIRTY (Val 2), OK (Val 3)]) =
     \<lparr>status = Dirty, value = Val [Val 1, Val 2, Val 3]\<rparr>"
proof -
  have h1: "\<forall>s\<in>set [OK (Val (1::nat)), DIRTY (Val 2), OK (Val 3)]. status s \<noteq> Aborted"
    by (simp add: OK_def DIRTY_def)
  have h2: "\<exists>s\<in>set [OK (Val (1::nat)), DIRTY (Val 2), OK (Val 3)]. status s = Dirty"
    by (simp add: OK_def DIRTY_def)
  show ?thesis
    using mergeArray_dirty_elements [OF h1 h2, of Valid] by (simp add: OK_def DIRTY_def)
qed



text \<open>
  Within one pair the two abort tests come before the two dirty tests: a dirty key
  whose own value is aborted does not mark the status.
\<close>

lemma mergeObjectSync_dirty_key_of_aborted_pair:
  "mergeObjectSync Valid [\<lparr>key = DIRTY k, pair_value = INVALID, alwaysSet = f\<rparr>]
     = (Valid, INVALID)"
  by (simp add: mergeObjectSync_def DIRTY_def INVALID_def)

section \<open>Predicates\<close>

text \<open>
  Claim C9, as the specification states it, fails: \<open>isDirty\<close> compares the status with
  \<open>"dirty"\<close>, so it is false for a result built by \<open>OK\<close>.
\<close>

theorem isDirty_ok_counterexample:
  "\<not> isDirty (Sync (OK (Val (0::nat))) :: (unit, nat) ParseReturnType)"
  by (simp add: OK_def)

text \<open>
  Claim C9, amended. \<open>isDirty\<close> holds exactly for a synchronous result whose status is
  dirty: it is true for \<open>DIRTY(v)\<close>, and false for \<open>OK(v)\<close>, for \<open>INVALID\<close> and for a
  promise.
\<close>

theorem isDirty_status:
  "isDirty (Sync (DIRTY v)) \<and> \<not> isDirty (Sync (OK v)) \<and> \<not> isDirty (Sync INVALID) \<and>
   \<not> isDirty (Async p) \<and> isDirty (Sync x) = (status x = Dirty)"
  by (simp add: DIRTY_def OK_def INVALID_def)

theorem isDirty_status_witness:
  "isDirty (Sync (DIRTY (Val (7::nat))) :: (unit, nat) ParseReturnType) \<and>
   \<not> isDirty (Sync (OK (Val (7::nat))) :: (unit, nat) ParseReturnType) \<and>
   \<not> isDirty (Sync INVALID :: (unit, nat) ParseReturnType)"
  using isDirty_status [of "Val (7::nat)" "Pending :: (unit, nat SyncParseReturnType) Promise"
      "INVALID :: nat SyncParseReturnType"]
  by simp

section \<open>mergeObjectSync and mergeObjectAsync\<close>




text \<open>
  Claim C8. When every key and every value of the pairs is a synchronous result or a
  promise fulfilled with one, \<open>mergeObjectAsync\<close> awaits, pair by pair in the order of
  the input, the key and then the value, and the promise it returns is fulfilled with
  exactly the result of \<open>mergeObjectSync\<close> on the resolved pairs; the status after the
  call is the status after that call of \<open>mergeObjectSync\<close>.
\<close>

theorem mergeObjectAsync_delegates:
  assumes "\<forall>p\<in>set pairs. (\<exists>k. await (async_key p) = Fulfilled k) \<and>
                          (\<exists>v. await (async_value p) = Fulfilled v)"
  shows "\<exists>syncPairs. list_all2 resolves_to pairs syncPairs \<and>
           mergeObjectAsync st pairs =
             (concat (map awaits_of pairs),
              fst (mergeObjectSync st syncPairs),
              Fulfilled (snd (mergeObjectSync st syncPairs)))"
proof -
  from resolved_pairs_exist [OF assms] obtain sps where
    sps: "list_all2 resolves_to pairs sps" ..
  have "mergeObjectAsync st pairs =
          (concat (map awaits_of pairs), fst (mergeObjectSync st sps),
           Fulfilled (snd (mergeObjectSync st sps)))"
    by (simp add: mergeObjectAsync_def mergeObjectAsync_loop_resolved [OF sps])
  with sps show ?thesis by blast
qed

theorem mergeObjectAsync_delegates_witness:
  "\<exists>syncPairs.
     list_all2 resolves_to
       [\<lparr>async_key = Sync (OK (Val (JString ''a''))),
         async_value = Async (Fulfilled (DIRTY (Val (1::nat))))\<rparr>
        :: (unit, nat) AsyncObjectPair] syncPairs \<and>
     mergeObjectAsync Valid
       [\<lparr>async_key = Sync (OK (Val (JString ''a''))),
         async_value = Async (Fulfilled (DIRTY (Val (1::nat))))\<rparr>
        :: (unit, nat) AsyncObjectPair] =
       (concat (map awaits_of
          [\<lparr>async_key = Sync (OK (Val (JString ''a''))),
            async_value = Async (Fulfilled (DIRTY (Val (1::nat))))\<rparr>
           :: (unit, nat) AsyncObjectPair]),
        fst (mergeObjectSync Valid syncPairs),
        Fulfilled (snd (mergeObjectSync Valid syncPairs)))"
proof -
  let ?pairs =
    "[\<lparr>async_key = Sync (OK (Val (JString ''a''))),
       async_value = Async (Fulfilled (DIRTY (Val (1::nat))))\<rparr>
      :: (unit, nat) AsyncObjectPair]"
  have h: "\<forall>p\<in>set ?pairs. (\<exists>k. await (async_key p) = Fulfilled k) \<and>
                            (\<exists>v. await (async_value p) = Fulfilled v)"
    by simp
  show ?thesis by (rule mergeObjectAsync_delegates [OF h, of Valid])
qed

text \<open>The same call, evaluated.\<close>

lemma mergeObjectAsync_example:
  "mergeObjectAsync Valid
     [\<lparr>async_key = Sync (OK (Val (JString ''a''))),
       async_value = Async (Fulfilled (DIRTY (Val (1::nat))))\<rparr>
      :: (unit, nat) AsyncObjectPair] =
   ([AwaitedKey (Sync (OK (Val (JString ''a'')))), AwaitedValue (Async (Fulfilled (DIRTY (Val 1))))],
    Dirty,
    Fulfilled \<lparr>status = Dirty,
      value = Val \<lparr>properties = [Name ''a'' \<mapsto> Val 1], proto_writes = []\<rparr>\<rparr>)"
  by (simp add: mergeObjectAsync_def mergeObjectSync_def OK_def DIRTY_def dirty_def
        contributes_def property_write_def empty_object_def)

text \<open>A rejected promise rejects the call at its await, before the status is touched.\<close>

lemma mergeObjectAsync_rejected_example:
  "mergeObjectAsync Valid
     [\<lparr>async_key = Sync (DIRTY (Val (JString ''a''))), async_value = Async (Rejected e)\<rparr>,
      \<lparr>async_key = Sync (OK (Val (JString ''b''))), async_value = Sync (OK (Val (1::nat)))\<rparr>] =
   ([AwaitedKey (Sync (DIRTY (Val (JString ''a'')))), AwaitedValue (Async (Rejected e))],
    Valid, Rejected e)"
  by (simp add: mergeObjectAsync_def)

section \<open>Issue builder\<close>

text \<open>
  Claim C5. When \<open>issueData\<close> has no message, \<open>makeIssue\<close> invokes the error maps
  that are present, in the reverse of the order in which they were supplied. Every
  invocation receives the issue with the full path and the data; the first receives
  the empty string as \<open>defaultError\<close> and each later one the message that the
  invocation before it returned. The message of the returned issue is the message
  returned by the last invocation, which is the invocation of the first present map
  of the supplied order (with no present map at all, the message is the empty string).
\<close>

theorem makeIssue_resolves_message:
  assumes "message issueData = Undefined"
  shows "map callee (snd (makeIssue fs d pth errorMaps issueData)) = rev (present errorMaps) \<and>
         (\<forall>c\<in>set (snd (makeIssue fs d pth errorMaps issueData)).
            call_issue c = issueData\<lparr>path := Val (pth @ path_or_empty (path issueData))\<rparr> \<and>
            data (call_ctx c) = d) \<and>
         chained fs [] (snd (makeIssue fs d pth errorMaps issueData)) \<and>
         message (fst (makeIssue fs d pth errorMaps issueData)) =
           Val (if present errorMaps = [] then []
                else returned fs (last (snd (makeIssue fs d pth errorMaps issueData)))) \<and>
         (present errorMaps \<noteq> [] \<longrightarrow>
            callee (last (snd (makeIssue fs d pth errorMaps issueData))) =
              hd (present errorMaps))"
proof -
  define fullIssue where
    "fullIssue = issueData\<lparr>path := Val (pth @ path_or_empty (path issueData))\<rparr>"
  define calls where "calls = calls_from fs fullIssue d (rev (present errorMaps)) []"
  have calls: "snd (makeIssue fs d pth errorMaps issueData) = calls"
    using assms
    by (simp add: makeIssue_def Let_def makeIssue_loop_calls calls_def fullIssue_def)
  have msg: "message (fst (makeIssue fs d pth errorMaps issueData)) =
      Val (if present errorMaps = [] then [] else returned fs (last calls))"
    using assms
    by (simp add: makeIssue_def Let_def makeIssue_loop_message calls_def fullIssue_def)
  have callees: "map callee calls = rev (present errorMaps)"
    by (simp add: calls_def callee_calls_from)
  have args: "\<forall>c\<in>set calls. call_issue c = fullIssue \<and> data (call_ctx c) = d"
    by (auto simp: calls_def dest: args_calls_from)
  have chain: "chained fs [] calls"
    by (simp add: calls_def chained_calls_from)
  have last: "callee (last calls) = hd (present errorMaps)" if "present errorMaps \<noteq> []"
  proof -
    from that have ne: "calls \<noteq> []" by (simp add: calls_def calls_from_Nil)
    then have "callee (last calls) = last (map callee calls)" by (simp add: last_map)
    also have "\<dots> = hd (present errorMaps)" using that by (simp add: callees last_rev)
    finally show ?thesis .
  qed
  show ?thesis
    unfolding calls using msg callees args chain last by (simp add: fullIssue_def)
qed

text \<open>
  The example of the specification: the maps A, B, C (functions 0, 1, 2) in priority
  order, with an absent entry among them. They are invoked in the order C, B, A, and
  the message of A is final.
\<close>

theorem makeIssue_resolves_message_witness:
  "map callee (snd (makeIssue example_table () [PathString ''a'', PathNumber 0]
      [Val 0, Undefined, Val 1, Val 2] example_issueData)) = [2, 1, 0] \<and>
   map (\<lambda>c. defaultError (call_ctx c))
     (snd (makeIssue example_table () [PathString ''a'', PathNumber 0]
      [Val 0, Undefined, Val 1, Val 2] example_issueData)) = ['''', ''C'', ''B(C)''] \<and>
   fst (makeIssue example_table () [PathString ''a'', PathNumber 0]
      [Val 0, Undefined, Val 1, Val 2] example_issueData) =
     \<lparr>detail = (), path = Val [PathString ''a'', PathNumber 0, PathString ''b''],
      message = Val ''override''\<rparr>"
proof -
  have h: "message example_issueData = Undefined"
    by (simp add: example_issueData_def)
  show ?thesis
    using makeIssue_resolves_message [OF h, of example_table "()"
        "[PathString ''a'', PathNumber 0]" "[Val 0, Undefined, Val 1, Val 2]"]
    by (simp add: makeIssue_def Let_def returned_def example_issueData_def
          example_table_def)
qed

text \<open>
  Claim C6. When \<open>issueData\<close> carries a message, the returned issue has exactly that
  message (and the full path), and \<open>makeIssue\<close> invokes no error map.
\<close>

theorem makeIssue_explicit_message:
  assumes "message issueData = Val msg"
  shows "message (fst (makeIssue fs d pth errorMaps issueData)) = Val msg \<and>
         snd (makeIssue fs d pth errorMaps issueData) = [] \<and>
         fst (makeIssue fs d pth errorMaps issueData) =
           issueData\<lparr>path := Val (pth @ path_or_empty (path issueData))\<rparr>"
  using assms by (simp add: makeIssue_def Let_def)

theorem makeIssue_explicit_message_witness:
  "makeIssue example_table () [PathNumber 3] [Val 0, Val 1]
     \<lparr>detail = (), path = Undefined, message = Val ''''\<rparr> =
   (\<lparr>detail = (), path = Val [PathNumber 3], message = Val ''''\<rparr>, [])"
proof -
  have h: "message \<lparr>detail = (), path = Undefined, message = Val ''''\<rparr> = Val ''''"
    by simp
  show ?thesis
    using makeIssue_explicit_message [OF h, of example_table "()" "[PathNumber 3]"
        "[Val 0, Val 1]"]
    by (simp add: prod_eq_iff)
qed

text \<open>
  Claim C7. \<open>addIssueToContext\<close> reads the global override map once and hands
  \<open>makeIssue\<close> the present maps among the contextual map, the schema map, the override
  map and the default map, in this order, where the default map is left out exactly
  when the override map is the default map; so the default map stands once among the
  two global entries. The issue built by \<open>makeIssue\<close> from the context's data and path
  is appended to \<open>common.issues\<close>; when \<open>issueData\<close> has no message the maps of the
  list are the functions invoked, last entry first. The contextual and the schema map
  are listed whatever functions they are.
\<close>

theorem addIssueToContext_chain:
  "errorMaps_of env ctx =
     present [contextualErrorMap (common ctx), schemaErrorMap ctx] @
     getErrorMap env #
     (if getErrorMap env = defaultErrorMap env then [] else [defaultErrorMap env]) \<and>
   count_list
     (getErrorMap env #
      (if getErrorMap env = defaultErrorMap env then [] else [defaultErrorMap env]))
     (defaultErrorMap env) = 1 \<and>
   addIssueToContext env ctx issueData =
     (ctx\<lparr>common := (common ctx)\<lparr>issues := issues (common ctx) @
        [fst (makeIssue (table env) (ctx_data ctx) (ctx_path ctx)
               (map Val (errorMaps_of env ctx)) issueData)]\<rparr>\<rparr>,
      snd (makeIssue (table env) (ctx_data ctx) (ctx_path ctx)
               (map Val (errorMaps_of env ctx)) issueData)) \<and>
   (message issueData = Undefined \<longrightarrow>
      map callee (snd (addIssueToContext env ctx issueData)) = rev (errorMaps_of env ctx))"
proof -
  have "errorMaps_of env ctx =
     present ([contextualErrorMap (common ctx), schemaErrorMap ctx] @
       [Val (getErrorMap env),
        if getErrorMap env = defaultErrorMap env then Undefined
        else Val (defaultErrorMap env)])"
    by (simp add: errorMaps_of_def Let_def)
  then have maps: "errorMaps_of env ctx =
     present [contextualErrorMap (common ctx), schemaErrorMap ctx] @
     getErrorMap env #
     (if getErrorMap env = defaultErrorMap env then [] else [defaultErrorMap env])"
    unfolding present_append by simp
  have callees: "map callee (snd (addIssueToContext env ctx issueData)) =
      rev (errorMaps_of env ctx)" if "message issueData = Undefined"
    using that
    by (simp add: addIssueToContext_def makeIssue_def Let_def makeIssue_loop_calls
          callee_calls_from present_map_Val)
  show ?thesis
    using maps callees by (simp add: addIssueToContext_def Let_def)
qed

text \<open>
  With the override map still the default map (function 2) the chain of the example
  context is its contextual map and the default map; after \<open>setErrorMap\<close> with
  function 0 it is the contextual map, the override map and the default map.
\<close>

theorem addIssueToContext_chain_witness:
  "errorMaps_of (initial_Env example_table 2) example_ctx = [1, 2] \<and>
   errorMaps_of (setErrorMap 0 (initial_Env example_table 2)) example_ctx = [1, 0, 2] \<and>
   map callee (snd (addIssueToContext (initial_Env example_table 2) example_ctx
      example_issueData)) = [2, 1] \<and>
   issues (common (fst (addIssueToContext (initial_Env example_table 2) example_ctx
      example_issueData))) =
     [\<lparr>detail = (), path = Val [PathString ''a'', PathNumber 0, PathString ''b''],
       message = Val ''B(C)''\<rparr>]"
proof -
  let ?env = "initial_Env example_table 2"
  note chain = addIssueToContext_chain [of ?env example_ctx example_issueData]
  have h: "message example_issueData = Undefined"
    by (simp add: example_issueData_def)
  have m1: "errorMaps_of ?env example_ctx = [1, 2]"
    using chain by (simp add: initial_Env_def getErrorMap_def example_ctx_def)
  have m2: "errorMaps_of (setErrorMap 0 ?env) example_ctx = [1, 0, 2]"
    using addIssueToContext_chain [of "setErrorMap 0 ?env" example_ctx example_issueData]
    by (simp add: initial_Env_def setErrorMap_def getErrorMap_def example_ctx_def)
  have callees: "map callee (snd (addIssueToContext ?env example_ctx example_issueData)) =
      rev (errorMaps_of ?env example_ctx)"
    using chain h by blast
  have result: "fst (addIssueToContext ?env example_ctx example_issueData) =
      example_ctx\<lparr>common := (common example_ctx)\<lparr>issues := issues (common example_ctx) @
        [fst (makeIssue (table ?env) (ctx_data example_ctx) (ctx_path example_ctx)
               (map Val (errorMaps_of ?env example_ctx)) example_issueData)]\<rparr>\<rparr>"
    using chain by simp
  have issue: "fst (makeIssue (table ?env) (ctx_data example_ctx) (ctx_path example_ctx)
               (map Val [1, 2]) example_issueData) =
     \<lparr>detail = (), path = Val [PathString ''a'', PathNumber 0, PathString ''b''],
       message = Val ''B(C)''\<rparr>"
    by (simp add: makeIssue_def Let_def initial_Env_def example_ctx_def
          example_issueData_def example_table_def)
  show ?thesis
    unfolding callees result m1 m2 issue by (simp add: example_ctx_def)
qed

end
